theory Spec2Isabelle
  imports Complex_Main "HOL-Library.Sublist" "HOL-Library.AList"
begin

section \<open>Strings and host values\<close>

text \<open>
  JavaScript strings are modelled as \<^typ>\<open>string\<close>; a character stands for one code
  unit below 256 (the Latin-1 range).
  What an operation reads from its host is handed in as a \<open>host\<close> record: \<open>now\<close> is
  \<open>Date.now()\<close>, \<open>random3\<close> the index drawn with \<open>Math.random()\<close>, \<open>origin\<close> is
  \<open>window.location.origin\<close>.
\<close>

definition is_white_space :: "char \<Rightarrow> bool" where
  \<comment> \<open>The code units below 256 that \<open>String.prototype.trim\<close> strips: TAB, LF, VT, FF, CR,
      SPACE and NBSP.\<close>
  "is_white_space c = (c \<in> set [CHR 0x09, CHR 0x0A, CHR 0x0B, CHR 0x0C, CHR 0x0D, CHR 0x20, CHR 0xA0])"

definition trim :: "string \<Rightarrow> string" where
  "trim s = rev (dropWhile is_white_space (rev (dropWhile is_white_space s)))"

definition lower_char :: "char \<Rightarrow> char" where
  \<comment> \<open>\<open>A\<close>..\<open>Z\<close> and the Latin-1 capitals (U+00C0..U+00DE without the multiplication sign)
      move up by 32; every other code unit below 256 is its own lower case.\<close>
  "lower_char c =
     (let n = (of_char c :: nat)
      in if (65 \<le> n \<and> n \<le> 90) \<or> (192 \<le> n \<and> n \<le> 222 \<and> n \<noteq> 215)
         then char_of (n + 32) else c)"

definition toLowerCase :: "string \<Rightarrow> string" where
  "toLowerCase s = map lower_char s"

definition includes_str :: "string \<Rightarrow> string \<Rightarrow> bool" where
  \<comment> \<open>\<open>s.includes(w)\<close>: \<open>w\<close> occurs in \<open>s\<close> as a contiguous substring.\<close>
  "includes_str s w = sublist w s"

definition digit_char :: "nat \<Rightarrow> char" where
  "digit_char d = char_of (48 + d)"

fun decimal :: "nat \<Rightarrow> string" where
  "decimal n = (if n < 10 then [digit_char n] else decimal (n div 10) @ [digit_char (n mod 10)])"

declare decimal.simps [simp del]

datatype 'a settled = Fulfilled 'a | Rejected string

section \<open>Messages\<close>

text \<open>
  A message id is a JavaScript value: absent (\<open>undefined\<close>), a number (the greeting has
  id \<open>1\<close>) or a string. A \<open>Set\<close> tells the number \<open>1\<close> from the string \<open>"1"\<close>.
\<close>

datatype ident = Undefined | NumId int | StrId string

fun truthy_id :: "ident \<Rightarrow> bool" where
  "truthy_id Undefined = False"
| "truthy_id (NumId n) = (n \<noteq> 0)"
| "truthy_id (StrId t) = (t \<noteq> [])"

fun truthy :: "string option \<Rightarrow> bool" where
  "truthy None = False"
| "truthy (Some t) = (t \<noteq> [])"

datatype sender = User | AI

datatype meta_value = MBool bool | MText string | MNum int

type_synonym metadata = "(string \<times> meta_value) list"

text \<open>A message as the chat gateway (or the offline fallback) delivers it.\<close>

record api_message =
  am_id :: ident
  am_role :: string
  am_content :: string
  am_timestamp :: "nat option"
  am_metadata :: "metadata option"

record chat_data =
  cd_message :: "api_message option"
  conversation_id :: "string option"
  should_request_screen_share :: bool
  confidence_score :: "rat option"

text \<open>A message as \<open>ChatWindow\<close> keeps it in its \<open>messages\<close> state.\<close>

record message =
  m_id :: ident
  m_text :: string
  m_sender :: sender
  m_timestamp :: "nat option"
  m_metadata :: metadata

section \<open>ChatService\<close>

record host =
  now :: nat
  random3 :: nat
  origin :: string

record send_result =
  success :: bool
  sr_data :: "chat_data option"
  sr_error :: "string option"
  fallback :: "chat_data option"

definition triggerWords :: "string list" where
  "triggerWords = [''help'', ''stuck'', ''error'', ''problem'', ''issue'', ''confused'', ''not working'']"

definition fallbackResponses :: "string list" where
  "fallbackResponses =
     [''I'' @ [CHR 0x27] @ ''m having trouble connecting to my AI service right now. Let me try to help you with a basic response.'',
      ''Sorry, I'' @ [CHR 0x27] @ ''m experiencing some technical difficulties. Could you please try again in a moment?'',
      ''I'' @ [CHR 0x27] @ ''m currently unable to access my full capabilities. Please describe your issue and I'' @ [CHR 0x27] @ ''ll do my best to help.'']"

definition ChatService_getFallbackResponse :: "host \<Rightarrow> string \<Rightarrow> chat_data" where
  \<comment> \<open>\<open>random3\<close> is the value of \<open>Math.floor(Math.random() * fallbackResponses.length)\<close>,
      one of 0, 1, 2.\<close>
  "ChatService_getFallbackResponse h userMessage =
     (let needsScreenShare = list_ex (\<lambda>word. includes_str (toLowerCase userMessage) word) triggerWords
      in \<lparr> cd_message = Some
             \<lparr> am_id = (StrId (''fallback-'' @ decimal (now h))),
               am_role = ''assistant'',
               am_content = fallbackResponses ! random3 h,
               am_timestamp = Some (now h),
               am_metadata = Some [(''fallback'', MBool True), (''offline'', MBool True)] \<rparr>,
           conversation_id = Some (''offline-'' @ decimal (now h)),
           should_request_screen_share = needsScreenShare,
           confidence_score = Some (if needsScreenShare then 8 / 10 else 2 / 10) \<rparr>)"

definition ChatService_sendMessage ::
  "host \<Rightarrow> chat_data settled \<Rightarrow> string \<Rightarrow> string option \<Rightarrow> string option \<Rightarrow> send_result" where
  \<comment> \<open>The second argument is how \<open>apiClient.post('/api/v1/chat', ...)\<close> settles.\<close>
  "ChatService_sendMessage h post userMessage conversationId userId =
     (case post of
        Fulfilled d \<Rightarrow> \<lparr> success = True, sr_data = Some d, sr_error = None, fallback = None \<rparr>
      | Rejected e \<Rightarrow>
          \<lparr> success = False, sr_data = None, sr_error = Some e,
            fallback = Some (ChatService_getFallbackResponse h userMessage) \<rparr>)"

section \<open>ChatWindow\<close>

text \<open>
  The component's \<open>useState\<close> cells and the \<open>playedMessageIdsRef\<close> set are fields of one
  record. Two further fields record what the asynchronous code has under way:
  \<open>pending\<close> holds the calls of \<open>playAIMessageTTS\<close> that have not settled yet, each with
  the values its \<open>playNextMessage\<close> closure captured at the render that created it, and
  \<open>tts_requests\<close> is the history of the messages handed to \<open>playAIMessageTTS\<close>.
  \<open>screenShareRequests\<close> counts the calls of \<open>onScreenShareRequest\<close>.
\<close>

datatype connection = Checking | Connected | Offline

record closure =
  c_isAutoplayActive :: bool
  c_messages :: "message list"

record playback =
  p_message :: message
  p_closure :: closure

record chat_window =
  messages :: "message list"
  inputMessage :: string
  isLoading :: bool
  conversationId :: "string option"
  connectionStatus :: connection
  error :: "string option"
  isAutoplayActive :: bool
  isPlayingAudio :: bool
  playedMessageIds :: "ident list"
  pending :: "playback list"
  tts_requests :: "message list"
  screenShareRequests :: nat

definition greeting :: "nat \<Rightarrow> message" where
  "greeting t =
     \<lparr> m_id = NumId 1,
       m_text = ''Hello! I'' @ [CHR 0x27] @ ''m your AI support assistant. How can I help you today?'',
       m_sender = AI,
       m_timestamp = Some t,
       m_metadata = [(''provider'', MText ''system''), (''greeting'', MBool True)] \<rparr>"

definition add_id :: "ident \<Rightarrow> ident list \<Rightarrow> ident list" where
  \<comment> \<open>\<open>Set.prototype.add\<close>\<close>
  "add_id i ids = (if i \<in> set ids then ids else ids @ [i])"

definition mounted :: "nat \<Rightarrow> chat_window" where
  \<comment> \<open>The state once the mount effects have run: the greeting's id is in the played set.\<close>
  "mounted t =
     \<lparr> messages = [greeting t], inputMessage = [], isLoading = False, conversationId = None,
       connectionStatus = Checking, error = None, isAutoplayActive = False,
       isPlayingAudio = False, playedMessageIds = add_id (NumId 1) [], pending = [],
       tts_requests = [], screenShareRequests = 0 \<rparr>"

subsection \<open>Autoplay\<close>

datatype tts_outcome = NetworkError | NonSuccess | AudioEnded | AudioErrored | PlayRejected

fun marks_played :: "tts_outcome \<Rightarrow> bool" where
  \<comment> \<open>The three audio callbacks add the id to the played set; the \<open>catch\<close> block, reached
      when \<open>fetch\<close> rejects or \<open>res.ok\<close> is false, does not.\<close>
  "marks_played NetworkError = False"
| "marks_played NonSuccess = False"
| "marks_played AudioEnded = True"
| "marks_played AudioErrored = True"
| "marks_played PlayRejected = True"

definition unplayed :: "chat_window \<Rightarrow> message \<Rightarrow> bool" where
  "unplayed s m = (m_id m \<notin> set (playedMessageIds s))"

definition playAIMessageTTS :: "closure \<Rightarrow> message \<Rightarrow> chat_window \<Rightarrow> chat_window" where
  \<comment> \<open>Up to the first \<open>await\<close>: \<open>setIsPlayingAudio(true)\<close>, and the request is sent.\<close>
  "playAIMessageTTS cl m s =
     s\<lparr> isPlayingAudio := True,
        pending := pending s @ [\<lparr> p_message = m, p_closure = cl \<rparr>],
        tts_requests := tts_requests s @ [m] \<rparr>"

definition playNextMessage :: "closure \<Rightarrow> chat_window \<Rightarrow> chat_window" where
  \<comment> \<open>\<open>isAutoplayActive\<close> and \<open>messages\<close> are the closure's constants; the played set is
      read through the ref, so it is the current one.\<close>
  "playNextMessage cl s =
     (if \<not> c_isAutoplayActive cl then s
      else
        let aiMessages = filter (\<lambda>m. m_sender m = AI) (c_messages cl)
        in case find (unplayed s) aiMessages of
             Some nextMessage \<Rightarrow> playAIMessageTTS cl nextMessage s
           | None \<Rightarrow> s\<lparr> isPlayingAudio := False \<rparr>)"

definition playAIMessageTTS_settled :: "playback \<Rightarrow> tts_outcome \<Rightarrow> chat_window \<Rightarrow> chat_window" where
  \<comment> \<open>The rest of \<open>playAIMessageTTS\<close>, then the rest of the \<open>playNextMessage\<close> that awaited it.\<close>
  "playAIMessageTTS_settled p out s =
     (let s1 = (if marks_played out
                then s\<lparr> playedMessageIds := add_id (m_id (p_message p)) (playedMessageIds s) \<rparr>
                else s)\<lparr> isPlayingAudio := False \<rparr>
      in if c_isAutoplayActive (p_closure p) then playNextMessage (p_closure p) s1 else s1)"

definition autoplay_effect :: "chat_window \<Rightarrow> chat_window" where
  \<comment> \<open>The effect with dependencies \<open>[isAutoplayActive, messages, isPlayingAudio]\<close>.\<close>
  "autoplay_effect s =
     (if isAutoplayActive s \<and> \<not> isPlayingAudio s then
        let aiMessages = filter (\<lambda>m. m_sender m = AI) (messages s);
            hasUnplayed = list_ex (unplayed s) aiMessages
        in if hasUnplayed
           then playNextMessage \<lparr> c_isAutoplayActive = isAutoplayActive s, c_messages = messages s \<rparr> s
           else s
      else s)"

definition toggleAutoplay :: "bool \<Rightarrow> chat_window \<Rightarrow> chat_window" where
  "toggleAutoplay enable s =
     (let s1 = s\<lparr> isAutoplayActive := enable \<rparr>
      in if \<not> enable then s1\<lparr> isPlayingAudio := False \<rparr> else s1)"

subsection \<open>Messages entering the window\<close>

definition ai_message_of :: "host \<Rightarrow> api_message \<Rightarrow> message" where
  \<comment> \<open>\<open>{ id: data.message.id || `ai-${Date.now()}`, text: data.message.content, sender: 'ai',
      timestamp: new Date(data.message.timestamp), metadata: data.message.metadata || {} }\<close>\<close>
  "ai_message_of h am =
     \<lparr> m_id = (if truthy_id (am_id am) then am_id am else StrId (''ai-'' @ decimal (now h))),
       m_text = am_content am,
       m_sender = AI,
       m_timestamp = am_timestamp am,
       m_metadata = (case am_metadata am of Some md \<Rightarrow> md | None \<Rightarrow> []) \<rparr>"

definition ai_message_handler :: "host \<Rightarrow> chat_data option \<Rightarrow> chat_window \<Rightarrow> chat_window" where
  \<comment> \<open>The listener for the window event \<open>ai-message\<close>. It is registered once, at mount, so
      the \<open>conversationId\<close> it tests is the first render's \<open>null\<close>. A missing or zero
      timestamp is replaced by \<open>Date.now()\<close>.\<close>
  "ai_message_handler h detail s =
     (case detail of
        None \<Rightarrow> s
      | Some d \<Rightarrow>
          (case cd_message d of
             None \<Rightarrow> s
           | Some am \<Rightarrow>
               let s1 = (if truthy (conversation_id d) then s\<lparr> conversationId := conversation_id d \<rparr> else s);
                   aiMessage = (ai_message_of h am)
                     \<lparr> m_timestamp := (case am_timestamp am of
                                         None \<Rightarrow> Some (now h)
                                       | Some t \<Rightarrow> if t = 0 then Some (now h) else Some t) \<rparr>
               in s1\<lparr> messages := messages s1 @ [aiMessage] \<rparr>))"

definition user_message :: "host \<Rightarrow> string \<Rightarrow> message" where
  "user_message h t =
     \<lparr> m_id = StrId (''user-'' @ decimal (now h)), m_text = t, m_sender = User,
       m_timestamp = Some (now h), m_metadata = [] \<rparr>"

definition ChatWindow_sendMessage :: "host \<Rightarrow> chat_window \<Rightarrow> chat_window" where
  \<comment> \<open>\<open>sendMessage\<close> up to its \<open>await\<close>.\<close>
  "ChatWindow_sendMessage h s =
     (if trim (inputMessage s) = [] then s
      else s\<lparr> messages := messages s @ [user_message h (inputMessage s)],
              inputMessage := [], isLoading := True, error := None \<rparr>)"

definition response_failed :: "host \<Rightarrow> chat_window \<Rightarrow> chat_window" where
  \<comment> \<open>The \<open>catch\<close> block of \<open>sendMessage\<close>.\<close>
  "response_failed h s =
     s\<lparr> messages := messages s @
          [\<lparr> m_id = StrId (''error-'' @ decimal (now h)),
             m_text = ''I'' @ [CHR 0x27] @ ''m sorry, I'' @ [CHR 0x27] @ ''m having trouble processing your request right now. Please try again in a moment.'',
             m_sender = AI, m_timestamp = Some (now h),
             m_metadata = [(''error'', MBool True), (''fallback'', MBool True)] \<rparr>],
        error := Some ''Connection error. Please check your internet connection.'',
        connectionStatus := Offline, isLoading := False \<rparr>"

definition response_received ::
  "host \<Rightarrow> string option \<Rightarrow> send_result \<Rightarrow> chat_window \<Rightarrow> chat_window" where
  \<comment> \<open>\<open>sendMessage\<close> after \<open>await chatService.sendMessage(...)\<close>; the second argument is the
      \<open>conversationId\<close> of the render whose \<open>sendMessage\<close> ran. Reading \<open>data.message.id\<close>
      of an absent message throws, which lands in the \<open>catch\<close> block.\<close>
  "response_received h cid r s =
     (if success r then
        (case sr_data r of
           None \<Rightarrow> response_failed h s
         | Some d \<Rightarrow>
             (case cd_message d of
                None \<Rightarrow> response_failed h
                  (if \<not> truthy cid \<and> truthy (conversation_id d)
                   then s\<lparr> conversationId := conversation_id d \<rparr> else s)
              | Some am \<Rightarrow>
                  let s1 = (if \<not> truthy cid \<and> truthy (conversation_id d)
                            then s\<lparr> conversationId := conversation_id d \<rparr> else s);
                      s2 = s1\<lparr> messages := messages s1 @ [ai_message_of h am] \<rparr>;
                      s3 = (if should_request_screen_share d
                            then s2\<lparr> screenShareRequests := Suc (screenShareRequests s2) \<rparr> else s2)
                  in s3\<lparr> connectionStatus := Connected, isLoading := False \<rparr>))
      else
        (case fallback r of
           None \<Rightarrow> response_failed h s
         | Some fb \<Rightarrow>
             (case cd_message fb of
                None \<Rightarrow> response_failed h s
              | Some am \<Rightarrow>
                  let aiMessage =
                        \<lparr> m_id = am_id am, m_text = am_content am, m_sender = AI,
                          m_timestamp = am_timestamp am,
                          m_metadata = AList.update ''error'' (MBool True)
                            (case am_metadata am of Some md \<Rightarrow> md | None \<Rightarrow> []) \<rparr>;
                      s1 = s\<lparr> messages := messages s @ [aiMessage],
                              error := Some ''Unable to connect to AI service. Using offline mode.'',
                              connectionStatus := Offline \<rparr>;
                      s2 = (if should_request_screen_share fb
                            then s1\<lparr> screenShareRequests := Suc (screenShareRequests s1) \<rparr> else s1)
                  in s2\<lparr> isLoading := False \<rparr>)))"

definition onTranscript :: "host \<Rightarrow> string \<Rightarrow> chat_window \<Rightarrow> chat_window" where
  \<comment> \<open>The callback given to \<open>SpeechInput\<close>, up to the call of \<open>chatService.sendMessage\<close>;
      its \<open>then\<close> and \<open>catch\<close> handlers are \<open>response_received\<close> and \<open>response_failed\<close>.\<close>
  "onTranscript h transcript s =
     (if transcript \<noteq> [] \<and> 10 < length (trim transcript)
      then s\<lparr> messages := messages s @ [user_message h transcript],
              isLoading := True, error := None \<rparr>
      else s\<lparr> inputMessage := transcript \<rparr>)"

definition loadConversation :: "string option \<Rightarrow> api_message list \<Rightarrow> chat_window \<Rightarrow> chat_window" where
  \<comment> \<open>The Load button, once \<open>getConversation\<close> has answered with messages.\<close>
  "loadConversation cid ms s =
     s\<lparr> conversationId := cid,
        messages := map (\<lambda>m. \<lparr> m_id = am_id m, m_text = am_content m,
                                m_sender = (if am_role m = ''user'' then User else AI),
                                m_timestamp = am_timestamp m,
                                m_metadata = (case am_metadata m of Some md \<Rightarrow> md | None \<Rightarrow> []) \<rparr>) ms,
        connectionStatus := Connected, error := None \<rparr>"

subsection \<open>Events and renders\<close>

text \<open>
  One event is one run of a handler or of an asynchronous continuation, up to its next
  \<open>await\<close>; the end of a synthesis runs the audio callback (or the \<open>catch\<close> block) and
  then, in the same turn, the \<open>playNextMessage\<close> that awaited it. React 18 batches the
  state updates of one such turn: they are committed together, and after the commit the
  autoplay effect runs if one of its dependencies changed. \<open>messages\<close> changes whenever
  \<open>setMessages\<close> was called (a new array), the two flags when their value differs.
\<close>

datatype event =
    ToggleAutoplay bool
  | AiMessage host "chat_data option"
  | SendMessage host
  | ResponseReceived host "string option" send_result
  | ResponseFailed host
  | Transcript host string
  | InputChanged string
  | LoadConversation "string option" "api_message list"
  | ConnectionChecked connection
  | TtsSettled nat tts_outcome

fun handle :: "event \<Rightarrow> chat_window \<Rightarrow> chat_window" where
  "handle (ToggleAutoplay enable) s = toggleAutoplay enable s"
| "handle (AiMessage h detail) s = ai_message_handler h detail s"
| "handle (SendMessage h) s = ChatWindow_sendMessage h s"
| "handle (ResponseReceived h cid r) s = response_received h cid r s"
| "handle (ResponseFailed h) s = response_failed h s"
| "handle (Transcript h t) s = onTranscript h t s"
| "handle (InputChanged t) s = s\<lparr> inputMessage := t \<rparr>"
| "handle (LoadConversation cid ms) s = loadConversation cid ms s"
| "handle (ConnectionChecked c) s = s\<lparr> connectionStatus := c \<rparr>"
| "handle (TtsSettled k out) s =
     (if k < length (pending s)
      then playAIMessageTTS_settled (pending s ! k) out
             (s\<lparr> pending := take k (pending s) @ drop (Suc k) (pending s) \<rparr>)
      else s)"

fun sets_messages :: "event \<Rightarrow> chat_window \<Rightarrow> bool" where
  "sets_messages (LoadConversation cid ms) s = True"
| "sets_messages e s = (messages (handle e s) \<noteq> messages s)"

definition step :: "event \<Rightarrow> chat_window \<Rightarrow> chat_window" where
  "step e s =
     (let s' = handle e s
      in if sets_messages e s \<or> isAutoplayActive s' \<noteq> isAutoplayActive s
            \<or> isPlayingAudio s' \<noteq> isPlayingAudio s
         then autoplay_effect s' else s')"

fun run :: "event list \<Rightarrow> chat_window \<Rightarrow> chat_window" where
  "run [] s = s"
| "run (e # es) s = run es (step e s)"

section \<open>ScreenShare\<close>

text \<open>
  The component's \<open>useState\<close> cells, the \<open>isActive\<close> prop that \<open>Home\<close> passes in, and two
  fields that record what the component has done: \<open>host_calls\<close> is the history of its calls
  to the browser, to the services and to its parent, and \<open>uploads\<close> counts the runs of the
  screenshot handler that have not finished.
\<close>

datatype host_call =
    GenerateToken string
  | GetDisplayMedia
  | ListenTrackEnded
  | OnStart
  | StopTracks
  | OnStop
  | CaptureFrame
  | PostScreenshot
  | ChatSend string
  | DispatchAiMessage "chat_data option"
  | Alert string

record screen_share =
  isActive :: bool
  isSharing :: bool
  share_error :: "string option"
  stream :: bool
  isGeneratingToken :: bool
  agoraToken :: "string option"
  channelName :: "string option"
  isUploadingScreenshot :: bool
  uploads :: nat
  host_calls :: "host_call list"

definition share_initial :: screen_share where
  "share_initial =
     \<lparr> isActive = False, isSharing = False, share_error = None, stream = False,
       isGeneratingToken = False, agoraToken = None, channelName = None,
       isUploadingScreenshot = False, uploads = 0, host_calls = [] \<rparr>"

datatype token_response = TokenOk string | TokenFailed "string option"

definition generateChannelName :: "host \<Rightarrow> string \<Rightarrow> string \<Rightarrow> string" where
  \<comment> \<open>The second argument is \<open>Math.random().toString(36).substring(2, 8)\<close>.\<close>
  "generateChannelName h rnd sessionId =
     ''support_'' @ (if sessionId = [] then ''session'' else sessionId) @ ''_'' @ decimal (now h) @ ''_'' @ rnd"

definition start_failed :: "string \<Rightarrow> screen_share \<Rightarrow> screen_share" where
  \<comment> \<open>The \<open>catch\<close> block of \<open>startScreenShare\<close>.\<close>
  "start_failed msg s =
     s\<lparr> share_error := Some (''Failed to start screen sharing: '' @ msg), isGeneratingToken := False \<rparr>"

definition startScreenShare ::
  "host \<Rightarrow> string \<Rightarrow> token_response \<Rightarrow> unit settled \<Rightarrow> screen_share \<Rightarrow> screen_share" where
  \<comment> \<open>\<open>startScreenShare\<close> from the click to its end; the third and fourth arguments are what
      \<open>agoraService.generateToken\<close> returns and how \<open>getDisplayMedia\<close> settles.\<close>
  "startScreenShare h rnd tokenResponse media s =
     (let channel = generateChannelName h rnd (''session_'' @ decimal (now h));
          s1 = s\<lparr> share_error := None, isGeneratingToken := True, channelName := Some channel,
                  host_calls := host_calls s @ [GenerateToken channel] \<rparr>
      in case tokenResponse of
           TokenFailed e \<Rightarrow>
             start_failed (case e of Some m \<Rightarrow> if m = [] then ''Failed to generate Agora token'' else m
                                    | None \<Rightarrow> ''Failed to generate Agora token'') s1
         | TokenOk tok \<Rightarrow>
             let s2 = s1\<lparr> agoraToken := Some tok, isGeneratingToken := False,
                          host_calls := host_calls s1 @ [GetDisplayMedia] \<rparr>
             in (case media of
                   Rejected m \<Rightarrow> start_failed m s2
                 | Fulfilled u \<Rightarrow>
                     s2\<lparr> stream := True, isSharing := True,
                         host_calls := host_calls s2 @ [ListenTrackEnded, OnStart] \<rparr>))"

definition stopScreenShare :: "bool \<Rightarrow> screen_share \<Rightarrow> screen_share" where
  \<comment> \<open>The first argument is whether the \<open>stream\<close> of the closure is set: it is for the
      Stop button of the current render, and it is not for the track's \<open>ended\<close> listener,
      which \<open>startScreenShare\<close> registered from a render without a stream. \<open>onStop\<close> makes
      \<open>Home\<close> withdraw the request, so \<open>isActive\<close> becomes false.\<close>
  "stopScreenShare captured_stream s =
     (let s1 = (if captured_stream
                then s\<lparr> stream := False, host_calls := host_calls s @ [StopTracks] \<rparr> else s)
      in s1\<lparr> isSharing := False, agoraToken := None, channelName := None, isActive := False,
              host_calls := host_calls s1 @ [OnStop] \<rparr>)"

definition screenshot_click :: "screen_share \<Rightarrow> screen_share" where
  \<comment> \<open>A click on Send Screenshot. The button is rendered in the sharing view only and is
      disabled while \<open>isUploadingScreenshot\<close>; the video element of the same view is what
      \<open>videoRef.current\<close> holds. The handler runs up to its first \<open>await\<close>.\<close>
  "screenshot_click s =
     (if isActive s \<and> isSharing s \<and> \<not> isUploadingScreenshot s
      then s\<lparr> isUploadingScreenshot := True, uploads := Suc (uploads s),
              host_calls := host_calls s @ [CaptureFrame, PostScreenshot] \<rparr>
      else s)"

datatype upload_outcome =
    UploadThrew string
  | UploadRefused "string option"
  | UploadOk string string send_result

definition screenshot_message :: "host \<Rightarrow> string \<Rightarrow> string \<Rightarrow> string" where
  "screenshot_message h ocr_text url =
     (if ocr_text \<noteq> []
      then ''User sent a screenshot. Extracted text:'' @ [CHR 0x0A, CHR 0x0A] @ ocr_text
      else ''User sent a screenshot: '' @ origin h @ url)"

definition screenshot_payload :: "host \<Rightarrow> string \<Rightarrow> send_result \<Rightarrow> chat_data option" where
  \<comment> \<open>\<open>resp.success ? resp.data : { message: { id: `offline-${Date.now()}`, content: message,
      timestamp: ..., metadata: { fallback: true } }, conversation_id: null }\<close>\<close>
  "screenshot_payload h msg resp =
     (if success resp then sr_data resp
      else Some \<lparr> cd_message = Some
                    \<lparr> am_id = StrId (''offline-'' @ decimal (now h)), am_role = [],
                      am_content = msg, am_timestamp = Some (now h),
                      am_metadata = Some [(''fallback'', MBool True)] \<rparr>,
                  conversation_id = None, should_request_screen_share = False,
                  confidence_score = None \<rparr>)"

definition screenshot_settled :: "host \<Rightarrow> upload_outcome \<Rightarrow> screen_share \<Rightarrow> screen_share" where
  \<comment> \<open>The rest of the screenshot handler: the upload has answered (third case: with
      \<open>data.success\<close>, the OCR text, the url, and what \<open>chatService.sendMessage\<close> returned).
      The \<open>finally\<close> block clears \<open>isUploadingScreenshot\<close>.\<close>
  "screenshot_settled h out s =
     (let calls =
            (case out of
               UploadThrew m \<Rightarrow> [Alert (''Screenshot upload failed: '' @ m)]
             | UploadRefused e \<Rightarrow>
                 [Alert (''Failed to upload screenshot: '' @
                    (case e of Some m \<Rightarrow> if m = [] then ''unknown'' else m | None \<Rightarrow> ''unknown''))]
             | UploadOk ocr_text url resp \<Rightarrow>
                 [ChatSend (screenshot_message h ocr_text url),
                  DispatchAiMessage (screenshot_payload h (screenshot_message h ocr_text url) resp),
                  Alert ''Screenshot sent to AI successfully.''])
      in s\<lparr> isUploadingScreenshot := False, uploads := uploads s - 1,
              host_calls := host_calls s @ calls \<rparr>)"

fun dispatched :: "host_call list \<Rightarrow> chat_data option list" where
  "dispatched [] = []"
| "dispatched (DispatchAiMessage d # cs) = d # dispatched cs"
| "dispatched (c # cs) = dispatched cs"

section \<open>The page: ScreenShare beside ChatWindow\<close>

text \<open>
  \<open>Home\<close> renders a desktop pair of the two components, which stays mounted whatever the
  active tab is, and a mobile pair of which one component is mounted at a time, by
  \<open>activeTab\<close>. The record below is one \<open>ScreenShare\<close> and one \<open>ChatWindow\<close> that stay
  mounted for the whole run, as the desktop pair does; the unmounting and remounting of
  the mobile pair is not part of it. An \<open>ai-message\<close> event that \<open>ScreenShare\<close>
  dispatches on the window runs the listener of \<open>ChatWindow\<close> before \<open>dispatchEvent\<close>
  returns.
\<close>

record page =
  share :: screen_share
  chat :: chat_window

datatype page_event =
    RequestShare
  | StartShare host string token_response "unit settled"
  | StopShare bool
  | ClickScreenshot
  | ScreenshotSettled host upload_outcome
  | Chat event

fun deliver :: "host \<Rightarrow> chat_data option list \<Rightarrow> chat_window \<Rightarrow> chat_window" where
  "deliver h [] c = c"
| "deliver h (d # ds) c = deliver h ds (step (AiMessage h d) c)"

fun page_step :: "page_event \<Rightarrow> page \<Rightarrow> page" where
  "page_step RequestShare p = p\<lparr> share := (share p)\<lparr> isActive := True \<rparr> \<rparr>"
| "page_step (StartShare h rnd tok media) p =
     p\<lparr> share := startScreenShare h rnd tok media (share p) \<rparr>"
| "page_step (StopShare captured) p = p\<lparr> share := stopScreenShare captured (share p) \<rparr>"
| "page_step ClickScreenshot p = p\<lparr> share := screenshot_click (share p) \<rparr>"
| "page_step (ScreenshotSettled h out) p =
     (if uploads (share p) = 0 then p
      else
        let sh = screenshot_settled h out (share p);
            sent = dispatched (drop (length (host_calls (share p))) (host_calls sh))
        in \<lparr> share = sh, chat = deliver h sent (chat p) \<rparr>)"
| "page_step (Chat e) p = p\<lparr> chat := step e (chat p) \<rparr>"

fun page_run :: "page_event list \<Rightarrow> page \<Rightarrow> page" where
  "page_run [] p = p"
| "page_run (e # es) p = page_run es (page_step e p)"

definition page_initial :: "nat \<Rightarrow> page" where
  "page_initial t = \<lparr> share = share_initial, chat = mounted t \<rparr>"

section \<open>Sample data and an auxiliary relation\<close>

definition host0 :: host where
  "host0 = \<lparr> now = 7, random3 = 1, origin = ''http://localhost:5173'' \<rparr>"

definition reply :: "string \<Rightarrow> string \<Rightarrow> chat_data" where
  \<comment> \<open>A gateway answer carrying an assistant message with the given id and body.\<close>
  "reply i body =
     \<lparr> cd_message = Some \<lparr> am_id = StrId i, am_role = ''assistant'', am_content = body,
                            am_timestamp = Some 5, am_metadata = None \<rparr>,
       conversation_id = Some ''c1'', should_request_screen_share = False,
       confidence_score = None \<rparr>"

definition advances :: "chat_window \<Rightarrow> chat_window \<Rightarrow> bool" where
  \<comment> \<open>From \<open>s\<close> to \<open>s'\<close> the played set has only grown, and every message handed to
      \<open>playAIMessageTTS\<close> on the way is an assistant message whose id was not in the played
      set of \<open>s\<close>.\<close>
  "advances s s' =
     (set (playedMessageIds s) \<subseteq> set (playedMessageIds s') \<and>
      (\<exists>new. tts_requests s' = tts_requests s @ new \<and>
         (\<forall>m\<in>set new. m_sender m = AI \<and> m_id m \<notin> set (playedMessageIds s))))"

fun benign :: "event \<Rightarrow> bool" where
  \<comment> \<open>The events of a run in which autoplay is never switched off and every synthesis ends
      in one of the audio callbacks.\<close>
  "benign (ToggleAutoplay enable) = enable"
| "benign (TtsSettled k out) = marks_played out"
| "benign e = True"

definition orderly :: "chat_window \<Rightarrow> bool" where
  \<comment> \<open>At most one synthesis is pending, \<open>isPlayingAudio\<close> says whether one is, and the
      requests made so far have distinct ids, each played or pending.\<close>
  "orderly s =
     (length (pending s) \<le> 1 \<and> (isPlayingAudio s \<longleftrightarrow> pending s \<noteq> []) \<and>
      distinct (map m_id (tts_requests s)) \<and>
      set (map m_id (tts_requests s))
        \<subseteq> set (playedMessageIds s) \<union> set (map (\<lambda>p. m_id (p_message p)) (pending s)))"

definition upload_guard :: "screen_share \<Rightarrow> bool" where
  \<comment> \<open>The flag \<open>isUploadingScreenshot\<close> tells whether a run of the screenshot handler is
      unfinished, and there is never more than one.\<close>
  "upload_guard s = (uploads s = (if isUploadingScreenshot s then 1 else 0))"

section \<open>Properties of the autoplay effect\<close>

lemma messages_autoplay_effect: "messages (autoplay_effect s) = messages s"
  by (simp add: autoplay_effect_def playNextMessage_def playAIMessageTTS_def Let_def
      split: option.splits)

lemma inputMessage_autoplay_effect: "inputMessage (autoplay_effect s) = inputMessage s"
  by (simp add: autoplay_effect_def playNextMessage_def playAIMessageTTS_def Let_def
      split: option.splits)

lemma trim_Nil: "trim [] = []"
  by (simp add: trim_def)

lemma set_add_id: "set (add_id i ids) = insert i (set ids)"
  by (auto simp: add_id_def)

lemma find_filter_Some:
  "find P (filter Q xs) = Some x \<Longrightarrow> P x \<and> Q x \<and> x \<in> set xs"
  by (induction xs) (auto split: if_splits)

lemma advances_refl: "advances s s"
  by (simp add: advances_def)

lemma advances_same:
  "playedMessageIds s' = playedMessageIds s \<Longrightarrow> tts_requests s' = tts_requests s \<Longrightarrow> advances s s'"
  by (simp add: advances_def)

lemma advances_trans:
  assumes "advances s s'" and "advances s' s''"
  shows "advances s s''"
proof -
  from assms(1) obtain n1 where
    p1: "set (playedMessageIds s) \<subseteq> set (playedMessageIds s')" and
    r1: "tts_requests s' = tts_requests s @ n1" and
    a1: "\<forall>m\<in>set n1. m_sender m = AI \<and> m_id m \<notin> set (playedMessageIds s)"
    unfolding advances_def by blast
  from assms(2) obtain n2 where
    p2: "set (playedMessageIds s') \<subseteq> set (playedMessageIds s'')" and
    r2: "tts_requests s'' = tts_requests s' @ n2" and
    a2: "\<forall>m\<in>set n2. m_sender m = AI \<and> m_id m \<notin> set (playedMessageIds s')"
    unfolding advances_def by blast
  have "tts_requests s'' = tts_requests s @ (n1 @ n2)"
    using r1 r2 by simp
  moreover have "\<forall>m\<in>set (n1 @ n2). m_sender m = AI \<and> m_id m \<notin> set (playedMessageIds s)"
    using a1 a2 p1 by auto
  ultimately show ?thesis
    unfolding advances_def using p1 p2 by blast
qed

lemma advances_playNextMessage: "advances s (playNextMessage cl s)"
proof (cases "find (unplayed s) (filter (\<lambda>m. m_sender m = AI) (c_messages cl))")
  case None
  then show ?thesis
    by (simp add: playNextMessage_def advances_def)
next
  case (Some m)
  then have "unplayed s m \<and> m_sender m = AI"
    using find_filter_Some [of "unplayed s" "\<lambda>m. m_sender m = AI" "c_messages cl" m] by simp
  with Some show ?thesis
    by (simp add: playNextMessage_def playAIMessageTTS_def advances_def unplayed_def)
qed

lemma advances_autoplay_effect: "advances s (autoplay_effect s)"
  by (simp add: autoplay_effect_def advances_playNextMessage advances_refl Let_def)

lemma advances_settled: "advances s (playAIMessageTTS_settled p out s)"
proof -
  define s1 where
    "s1 = (if marks_played out
           then s\<lparr> playedMessageIds := add_id (m_id (p_message p)) (playedMessageIds s) \<rparr>
           else s)\<lparr> isPlayingAudio := False \<rparr>"
  have a: "advances s s1"
    by (auto simp: s1_def advances_def set_add_id)
  have "advances s1 (if c_isAutoplayActive (p_closure p) then playNextMessage (p_closure p) s1 else s1)"
    by (simp add: advances_playNextMessage advances_refl)
  with a have "advances s (if c_isAutoplayActive (p_closure p) then playNextMessage (p_closure p) s1 else s1)"
    by (rule advances_trans)
  then show ?thesis
    by (simp only: playAIMessageTTS_settled_def s1_def Let_def)
qed

lemma advances_handle: "advances s (handle e s)"
proof (cases e)
  case (TtsSettled k out)
  have "advances (s\<lparr> pending := take k (pending s) @ drop (Suc k) (pending s) \<rparr>)
      (playAIMessageTTS_settled (pending s ! k) out
         (s\<lparr> pending := take k (pending s) @ drop (Suc k) (pending s) \<rparr>))"
    by (rule advances_settled)
  then have "advances s (playAIMessageTTS_settled (pending s ! k) out
      (s\<lparr> pending := take k (pending s) @ drop (Suc k) (pending s) \<rparr>))"
    by (simp add: advances_def)
  with TtsSettled show ?thesis by (simp add: advances_refl)
next
  case (ResponseReceived h cid r)
  then show ?thesis
    by (auto simp: response_received_def response_failed_def Let_def
        intro!: advances_same split: option.splits)
qed (auto simp: toggleAutoplay_def ai_message_handler_def ChatWindow_sendMessage_def
       response_failed_def onTranscript_def loadConversation_def Let_def
       intro!: advances_same split: option.splits)

lemma advances_step: "advances s (step e s)"
  using advances_trans [OF advances_handle advances_autoplay_effect]
  by (simp add: step_def Let_def advances_handle)

lemma advances_run: "advances s (run es s)"
proof (induction es arbitrary: s)
  case Nil
  show ?case by (simp add: advances_refl)
next
  case (Cons e es)
  show ?case using advances_trans [OF advances_step Cons.IH] by simp
qed

lemma find_skip:
  "\<forall>m\<in>set pre. Q m \<longrightarrow> \<not> P m \<Longrightarrow> find P (filter Q pre @ rest) = find P rest"
  by (induction pre) auto

lemma list_ex_skip:
  "\<forall>m\<in>set pre. Q m \<longrightarrow> \<not> P m \<Longrightarrow> list_ex P (filter Q pre) = False"
  by (induction pre) auto

lemma find_unplayed_skip:
  "\<forall>m\<in>set pre. m_sender m = AI \<longrightarrow> m_id m \<in> set (playedMessageIds s') \<Longrightarrow>
   find (unplayed s') (filter (\<lambda>m. m_sender m = AI) pre @ rest) = find (unplayed s') rest"
  by (rule find_skip) (simp add: unplayed_def)

lemma list_ex_unplayed_skip:
  "\<forall>m\<in>set pre. m_sender m = AI \<longrightarrow> m_id m \<in> set (playedMessageIds s') \<Longrightarrow>
   list_ex (unplayed s') (filter (\<lambda>m. m_sender m = AI) pre) = False"
  by (rule list_ex_skip) (simp add: unplayed_def)

lemma messages_step_AiMessage:
  "cd_message d = Some am \<Longrightarrow>
   \<exists>m. messages (step (AiMessage h (Some d)) s) = messages s @ [m] \<and>
       m_id m = (if truthy_id (am_id am) then am_id am else StrId (''ai-'' @ decimal (now h))) \<and>
       m_text m = am_content am \<and> m_sender m = AI"
  by (simp add: step_def ai_message_handler_def ai_message_of_def Let_def messages_autoplay_effect)

lemma messages_settled: "messages (playAIMessageTTS_settled p out s) = messages s"
  by (simp add: playAIMessageTTS_settled_def playNextMessage_def playAIMessageTTS_def Let_def
      split: option.splits)

lemma step_appends_at_most_one:
  "(\<exists>cid l. e = LoadConversation cid l) \<or>
   (\<exists>ms. messages (step e s) = messages s @ ms \<and> length ms \<le> 1)"
proof (cases e)
  case (ResponseReceived h cid r)
  then show ?thesis
    by (simp add: step_def Let_def messages_autoplay_effect response_received_def
        response_failed_def split: option.splits)
next
  case (TtsSettled k out)
  then show ?thesis
    by (simp add: step_def Let_def messages_autoplay_effect messages_settled)
qed (simp_all add: step_def Let_def messages_autoplay_effect toggleAutoplay_def
      ai_message_handler_def ChatWindow_sendMessage_def response_failed_def onTranscript_def
      split: option.splits)

lemmas eval_defs = step_def ai_message_handler_def ai_message_of_def reply_def mounted_def
  autoplay_effect_def greeting_def Let_def toggleAutoplay_def playNextMessage_def
  playAIMessageTTS_def playAIMessageTTS_settled_def unplayed_def add_id_def

section \<open>One screenshot upload at a time, for one mounted ScreenShare\<close>

text \<open>
  For one \<open>ScreenShare\<close> that stays mounted, at most one run of its screenshot handler is
  unfinished, and \<open>isUploadingScreenshot\<close> says whether there is one: a click starts a run
  only while the flag is clear. (A \<open>ScreenShare\<close> that is unmounted during an upload and
  mounted anew starts with the flag clear; that is outside this record.)
\<close>

lemma upload_guard_step: "upload_guard (share p) \<Longrightarrow> upload_guard (share (page_step e p))"
proof (cases e)
  case (StartShare h rnd tok media)
  then show "upload_guard (share p) \<Longrightarrow> ?thesis"
    by (simp add: upload_guard_def startScreenShare_def start_failed_def Let_def
        split: token_response.splits settled.splits)
next
  case (ScreenshotSettled h out)
  then show "upload_guard (share p) \<Longrightarrow> ?thesis"
    by (simp add: upload_guard_def screenshot_settled_def Let_def)
qed (simp_all add: upload_guard_def stopScreenShare_def screenshot_click_def Let_def)

lemma upload_guard_run: "upload_guard (share p) \<Longrightarrow> upload_guard (share (page_run es p))"
  by (induction es arbitrary: p) (simp_all add: upload_guard_step)

lemma at_most_one_upload_in_flight: "uploads (share (page_run es (page_initial t))) \<le> 1"
proof -
  have "upload_guard (share (page_initial t))"
    by (simp add: upload_guard_def page_initial_def share_initial_def)
  then have "upload_guard (share (page_run es (page_initial t)))"
    by (rule upload_guard_run)
  then show ?thesis
    by (simp add: upload_guard_def split: if_splits)
qed

section \<open>Autoplay when nothing goes wrong\<close>

text \<open>
  Over any sequence of events the played set only grows, and no message whose id is in the
  played set is handed to \<open>playAIMessageTTS\<close> afterwards.
\<close>

lemma played_set_gates_selection:
  "set (playedMessageIds s) \<subseteq> set (playedMessageIds (run es s)) \<and>
   (\<exists>new. tts_requests (run es s) = tts_requests s @ new \<and>
      (\<forall>m\<in>set new. m_id m \<notin> set (playedMessageIds s)))"
  using advances_run [of s es] unfolding advances_def by blast

lemma played_set_gates_selection_sample:
  "NumId 1 \<in> set (playedMessageIds (run [AiMessage host0 (Some (reply ''a'' ''one'')),
       ToggleAutoplay True, TtsSettled 0 AudioEnded] (mounted 0))) \<and>
   list_all (\<lambda>m. m_id m \<noteq> NumId 1) (tts_requests (run [AiMessage host0 (Some (reply ''a'' ''one'')),
       ToggleAutoplay True, TtsSettled 0 AudioEnded] (mounted 0))) \<and>
   tts_requests (run [AiMessage host0 (Some (reply ''a'' ''one'')),
       ToggleAutoplay True, TtsSettled 0 AudioEnded] (mounted 0)) \<noteq> []"
proof -
  have p: "playedMessageIds (mounted 0) = [NumId 1]" and r: "tts_requests (mounted 0) = []"
    by (simp_all add: mounted_def add_id_def)
  have "tts_requests (run [AiMessage host0 (Some (reply ''a'' ''one'')),
       ToggleAutoplay True, TtsSettled 0 AudioEnded] (mounted 0)) \<noteq> []"
    by (simp add: eval_defs)
  then show ?thesis
    using played_set_gates_selection [of "mounted 0" "[AiMessage host0 (Some (reply ''a'' ''one'')),
       ToggleAutoplay True, TtsSettled 0 AudioEnded]"]
    unfolding p r by (auto simp: list_all_iff)
qed

text \<open>
  The message that \<open>playNextMessage\<close> hands to \<open>playAIMessageTTS\<close> is the earliest
  assistant message of its list whose id is not played.
\<close>

lemma find_earliest:
  "find P xs = Some x \<Longrightarrow> \<exists>pre post. xs = pre @ x # post \<and> P x \<and> (\<forall>y\<in>set pre. \<not> P y)"
proof (induction xs)
  case Nil
  then show ?case by simp
next
  case (Cons a xs)
  show ?case
  proof (cases "P a")
    case True
    with Cons.prems have "a = x" by simp
    with True show ?thesis by (intro exI [of _ "[]"] exI [of _ xs]) simp
  next
    case False
    with Cons.prems have "find P xs = Some x" by simp
    from Cons.IH [OF this] obtain pre post where
      "xs = pre @ x # post" "P x" "\<forall>y\<in>set pre. \<not> P y" by blast
    with False show ?thesis by (intro exI [of _ "a # pre"] exI [of _ post]) simp
  qed
qed

lemma selection_is_earliest_unplayed:
  assumes "c_isAutoplayActive cl"
    and "tts_requests (playNextMessage cl s) \<noteq> tts_requests s"
  shows "\<exists>pre m post. c_messages cl = pre @ m # post \<and>
           tts_requests (playNextMessage cl s) = tts_requests s @ [m] \<and>
           m_sender m = AI \<and> m_id m \<notin> set (playedMessageIds s) \<and>
           (\<forall>y\<in>set pre. m_sender y = AI \<longrightarrow> m_id y \<in> set (playedMessageIds s))"
proof (cases "find (\<lambda>m. m_sender m = AI \<and> unplayed s m) (c_messages cl)")
  case None
  then have "find (unplayed s) (filter (\<lambda>m. m_sender m = AI) (c_messages cl)) = None"
    by (induction "c_messages cl" arbitrary: cl) (auto simp: find_None_iff)
  with assms show ?thesis
    by (simp add: playNextMessage_def)
next
  case (Some m)
  have ff: "\<And>xs. find (unplayed s) (filter (\<lambda>m. m_sender m = AI) xs)
      = find (\<lambda>m. m_sender m = AI \<and> unplayed s m) xs"
    by (induct_tac xs) auto
  have sel: "find (unplayed s) (filter (\<lambda>m. m_sender m = AI) (c_messages cl)) = Some m"
    using Some ff by simp
  have r: "tts_requests (playNextMessage cl s) = tts_requests s @ [m]"
    using assms(1) sel by (simp add: playNextMessage_def playAIMessageTTS_def)
  from find_earliest [OF Some] obtain pre post where
    "c_messages cl = pre @ m # post" "m_sender m = AI \<and> unplayed s m"
    "\<forall>y\<in>set pre. \<not> (m_sender y = AI \<and> unplayed s y)" by blast
  with r show ?thesis
    unfolding unplayed_def by blast
qed

text \<open>
  With the list ending in \<open>M1\<close> (assistant), \<open>M2\<close> (user), \<open>M3\<close> (assistant), nothing
  pending when autoplay is switched on, and both playbacks ending in an audio callback,
  the requests are \<open>M1\<close>, then \<open>M3\<close>.
\<close>

lemma autoplay_fifo_order:
  assumes msgs: "messages s = pre @ [M1, M2, M3]"
    and pre: "\<forall>m\<in>set pre. m_sender m = AI \<longrightarrow> m_id m \<in> set (playedMessageIds s)"
    and sender: "m_sender M1 = AI" "m_sender M2 = User" "m_sender M3 = AI"
    and ids: "m_id M1 \<notin> set (playedMessageIds s)" "m_id M3 \<notin> set (playedMessageIds s)"
      "m_id M1 \<noteq> m_id M3"
    and idle: "\<not> isAutoplayActive s" "\<not> isPlayingAudio s" "pending s = []"
    and ok: "marks_played o1" "marks_played o2"
  shows "tts_requests (run [ToggleAutoplay True] s) = tts_requests s @ [M1] \<and>
         tts_requests (run [ToggleAutoplay True, TtsSettled 0 o1] s) = tts_requests s @ [M1, M3] \<and>
         tts_requests (run [ToggleAutoplay True, TtsSettled 0 o1, TtsSettled 0 o2] s)
           = tts_requests s @ [M1, M3] \<and>
         pending (run [ToggleAutoplay True, TtsSettled 0 o1, TtsSettled 0 o2] s) = [] \<and>
         isPlayingAudio (run [ToggleAutoplay True, TtsSettled 0 o1, TtsSettled 0 o2] s) = False"
proof -
  define cl where "cl = \<lparr> c_isAutoplayActive = True, c_messages = pre @ [M1, M2, M3] \<rparr>"
  define s1 where "s1 = playAIMessageTTS cl M1 (s\<lparr> isAutoplayActive := True \<rparr>)"
  define s2 where "s2 = playAIMessageTTS cl M3
     (s\<lparr> isAutoplayActive := True, isPlayingAudio := False,
         playedMessageIds := add_id (m_id M1) (playedMessageIds s),
         tts_requests := tts_requests s @ [M1] \<rparr>)"
  define s3 where "s3 = s\<lparr> isAutoplayActive := True, isPlayingAudio := False,
         playedMessageIds := add_id (m_id M3) (add_id (m_id M1) (playedMessageIds s)),
         tts_requests := tts_requests s @ [M1, M3] \<rparr>"
  have pre': "\<And>m. m \<in> set pre \<Longrightarrow> m_sender m = AI \<Longrightarrow> m_id m \<in> set (playedMessageIds s)"
    using pre by blast
  have e1: "step (ToggleAutoplay True) s = s1"
    using idle sender ids msgs pre'
    by (simp add: step_def toggleAutoplay_def autoplay_effect_def playNextMessage_def Let_def
        find_unplayed_skip list_ex_unplayed_skip unplayed_def s1_def cl_def)
  have e2: "step (TtsSettled 0 o1) s1 = s2"
    using idle sender ids ok(1) msgs pre'
    by (simp add: step_def playAIMessageTTS_settled_def playNextMessage_def Let_def
        playAIMessageTTS_def find_unplayed_skip unplayed_def s1_def s2_def cl_def set_add_id)
  have e3: "step (TtsSettled 0 o2) s2 = s3"
    using idle sender ids ok(2) msgs pre'
    by (simp add: step_def playAIMessageTTS_settled_def playNextMessage_def Let_def
        playAIMessageTTS_def autoplay_effect_def find_unplayed_skip list_ex_unplayed_skip
        unplayed_def s2_def s3_def cl_def set_add_id)
  show ?thesis
    using idle by (simp add: e1 e2 e3) (simp add: s1_def s2_def s3_def playAIMessageTTS_def)
qed

lemma autoplay_fifo_order_sample:
  "map m_id (tts_requests (run [ToggleAutoplay True, TtsSettled 0 AudioEnded, TtsSettled 0 AudioEnded]
     (run [AiMessage host0 (Some (reply ''a'' ''one'')), Transcript host0 ''please help me'',
           AiMessage host0 (Some (reply ''b'' ''two''))] (mounted 0))))
     = [StrId ''a'', StrId ''b'']"
proof -
  define s where "s = run [AiMessage host0 (Some (reply ''a'' ''one'')),
       Transcript host0 ''please help me'', AiMessage host0 (Some (reply ''b'' ''two''))] (mounted 0)"
  define M1 where "M1 = \<lparr> m_id = StrId ''a'', m_text = ''one'', m_sender = AI,
       m_timestamp = Some 5, m_metadata = [] \<rparr>"
  define M3 where "M3 = \<lparr> m_id = StrId ''b'', m_text = ''two'', m_sender = AI,
       m_timestamp = Some 5, m_metadata = [] \<rparr>"
  have f: "messages s = [greeting 0] @ [M1, user_message host0 ''please help me'', M3]"
    "playedMessageIds s = [NumId 1]" "tts_requests s = []"
    "\<not> isAutoplayActive s" "\<not> isPlayingAudio s" "pending s = []"
    by (simp_all add: s_def M1_def M3_def step_def ai_message_handler_def ai_message_of_def
        reply_def mounted_def autoplay_effect_def onTranscript_def trim_def is_white_space_def
        add_id_def Let_def)
  have "tts_requests (run [ToggleAutoplay True, TtsSettled 0 AudioEnded, TtsSettled 0 AudioEnded] s)
      = tts_requests s @ [M1, M3]"
    using autoplay_fifo_order [of s "[greeting 0]" M1 "user_message host0 ''please help me''" M3
        AudioEnded AudioEnded] f
    by (simp add: M1_def M3_def user_message_def greeting_def)
  then show ?thesis
    using f(3) by (simp add: s_def M1_def M3_def)
qed

text \<open>
  As long as autoplay is not switched off and every synthesis ends in an audio callback,
  no id is requested twice: at most one synthesis is pending at a time, and its id is
  played before the next selection.
\<close>

lemma orderly_playNextMessage:
  assumes "pending s = []" and "\<not> isPlayingAudio s"
    and "distinct (map m_id (tts_requests s))"
    and "set (map m_id (tts_requests s)) \<subseteq> set (playedMessageIds s)"
  shows "orderly (playNextMessage cl s)"
proof (cases "find (unplayed s) (filter (\<lambda>m. m_sender m = AI) (c_messages cl))")
  case None
  with assms show ?thesis
    by (simp add: playNextMessage_def orderly_def)
next
  case (Some m)
  then have "m_id m \<notin> set (playedMessageIds s)"
    using find_filter_Some [of "unplayed s" "\<lambda>m. m_sender m = AI" "c_messages cl" m]
    by (simp add: unplayed_def)
  with assms have "m_id m \<notin> set (map m_id (tts_requests s))"
    by blast
  with Some assms show ?thesis
    by (auto simp: playNextMessage_def playAIMessageTTS_def orderly_def)
qed

lemma orderly_autoplay_effect: "orderly s \<Longrightarrow> orderly (autoplay_effect s)"
proof (cases "isAutoplayActive s \<and> \<not> isPlayingAudio s")
  case True
  assume o: "orderly s"
  with True have "pending s = []" "distinct (map m_id (tts_requests s))"
    "set (map m_id (tts_requests s)) \<subseteq> set (playedMessageIds s)"
    by (auto simp: orderly_def)
  with True o show ?thesis
    by (simp add: autoplay_effect_def Let_def orderly_playNextMessage)
next
  case False
  assume "orderly s"
  with False show ?thesis
    by (auto simp: autoplay_effect_def)
qed

lemma orderly_settled:
  assumes o: "orderly s" and k: "k < length (pending s)" and m: "marks_played out"
  shows "orderly (playAIMessageTTS_settled (pending s ! k) out
           (s\<lparr> pending := take k (pending s) @ drop (Suc k) (pending s) \<rparr>))"
proof -
  from o k obtain p where p: "pending s = [p]" and k0: "k = 0"
    by (cases "pending s") (auto simp: orderly_def)
  define s1 where "s1 = s\<lparr> pending := [],
      playedMessageIds := add_id (m_id (p_message p)) (playedMessageIds s),
      isPlayingAudio := False \<rparr>"
  have c: "pending s1 = []" "\<not> isPlayingAudio s1" "distinct (map m_id (tts_requests s1))"
    "set (map m_id (tts_requests s1)) \<subseteq> set (playedMessageIds s1)"
    using o p by (auto simp: s1_def orderly_def set_add_id)
  then have "orderly s1"
    by (simp add: orderly_def)
  moreover have "orderly (playNextMessage (p_closure p) s1)"
    using c by (rule orderly_playNextMessage)
  ultimately have "orderly (if c_isAutoplayActive (p_closure p)
      then playNextMessage (p_closure p) s1 else s1)"
    by simp
  then show ?thesis
    using m by (simp add: playAIMessageTTS_settled_def Let_def p k0 s1_def split: if_splits)
qed

lemma orderly_frame:
  "pending s' = pending s \<Longrightarrow> isPlayingAudio s' = isPlayingAudio s \<Longrightarrow>
   tts_requests s' = tts_requests s \<Longrightarrow> playedMessageIds s' = playedMessageIds s \<Longrightarrow>
   orderly s \<Longrightarrow> orderly s'"
  by (simp add: orderly_def)

lemma orderly_handle: "orderly s \<Longrightarrow> benign e \<Longrightarrow> orderly (handle e s)"
proof (cases e)
  case (TtsSettled k out)
  then show "orderly s \<Longrightarrow> benign e \<Longrightarrow> ?thesis"
    by (simp add: orderly_settled)
next
  case (ResponseReceived h cid r)
  then show "orderly s \<Longrightarrow> benign e \<Longrightarrow> ?thesis"
    by (auto simp: response_received_def response_failed_def Let_def
        elim!: orderly_frame [rotated 4] split: option.splits)
qed (auto simp: toggleAutoplay_def ai_message_handler_def ChatWindow_sendMessage_def
       response_failed_def onTranscript_def loadConversation_def Let_def
       elim!: orderly_frame [rotated 4] split: option.splits)

lemma orderly_step: "orderly s \<Longrightarrow> benign e \<Longrightarrow> orderly (step e s)"
  by (simp add: step_def Let_def orderly_handle orderly_autoplay_effect)

lemma orderly_run: "orderly s \<Longrightarrow> list_all benign es \<Longrightarrow> orderly (run es s)"
  by (induction es arbitrary: s) (simp_all add: orderly_step)

lemma at_most_once_without_defect:
  "list_all benign es \<Longrightarrow> distinct (map m_id (tts_requests (run es (mounted t))))"
proof -
  assume "list_all benign es"
  moreover have "orderly (mounted t)"
    by (simp add: orderly_def mounted_def)
  ultimately have "orderly (run es (mounted t))"
    by (rule orderly_run [rotated])
  then show ?thesis
    by (simp add: orderly_def)
qed

section \<open>The claims\<close>

text \<open>
  The sample runs start from the mounted window; \<open>a\<close> and \<open>b\<close> are assistant messages
  that arrive with an \<open>ai-message\<close> event.
\<close>

text \<open>
  C1. Every synthesis-and-playback attempt that completes marks its message played and
  lets the queue move on, also when the gateway answers with a non-success response or the
  request fails. The \<open>catch\<close> block of \<open>playAIMessageTTS\<close> does not add the id: after a
  non-success response, and after a network error, the played set is still the greeting's
  id alone and the same message \<open>a\<close> is requested again, while \<open>b\<close> is not reached. The
  audio callbacks do add it: after an audio error \<open>a\<close> is played and \<open>b\<close> is next.
\<close>

theorem failed_synthesis_retried:
  "playedMessageIds (run [AiMessage host0 (Some (reply ''a'' ''one'')),
                          AiMessage host0 (Some (reply ''b'' ''two'')),
                          ToggleAutoplay True, TtsSettled 0 NonSuccess] (mounted 0)) = [NumId 1] \<and>
   map m_id (tts_requests (run [AiMessage host0 (Some (reply ''a'' ''one'')),
                          AiMessage host0 (Some (reply ''b'' ''two'')),
                          ToggleAutoplay True, TtsSettled 0 NonSuccess] (mounted 0)))
     = [StrId ''a'', StrId ''a''] \<and>
   playedMessageIds (run [AiMessage host0 (Some (reply ''a'' ''one'')),
                          AiMessage host0 (Some (reply ''b'' ''two'')),
                          ToggleAutoplay True, TtsSettled 0 NetworkError] (mounted 0)) = [NumId 1] \<and>
   map m_id (tts_requests (run [AiMessage host0 (Some (reply ''a'' ''one'')),
                          AiMessage host0 (Some (reply ''b'' ''two'')),
                          ToggleAutoplay True, TtsSettled 0 NetworkError] (mounted 0)))
     = [StrId ''a'', StrId ''a''] \<and>
   playedMessageIds (run [AiMessage host0 (Some (reply ''a'' ''one'')),
                          AiMessage host0 (Some (reply ''b'' ''two'')),
                          ToggleAutoplay True, TtsSettled 0 AudioErrored] (mounted 0))
     = [NumId 1, StrId ''a''] \<and>
   map m_id (tts_requests (run [AiMessage host0 (Some (reply ''a'' ''one'')),
                          AiMessage host0 (Some (reply ''b'' ''two'')),
                          ToggleAutoplay True, TtsSettled 0 AudioErrored] (mounted 0)))
     = [StrId ''a'', StrId ''b'']"
  by (simp add: eval_defs)


text \<open>
  C3, as the code has it. The end of a screenshot upload does not look at the session: when
  the upload has succeeded, the handler dispatches one \<open>ai-message\<close> event, and
  \<open>ChatWindow\<close> appends the message the event carries, whether sharing is still on or has
  been stopped in the meantime.
\<close>

theorem upload_result_delivered_whatever_the_session:
  assumes "0 < uploads (share p)"
    and "screenshot_payload h (screenshot_message h ocr_text url) resp = Some d"
    and "cd_message d = Some am"
  shows "dispatched (drop (length (host_calls (share p)))
           (host_calls (share (page_step (ScreenshotSettled h (UploadOk ocr_text url resp)) p))))
           = [Some d] \<and>
         map m_text (messages (chat (page_step (ScreenshotSettled h (UploadOk ocr_text url resp)) p)))
           = map m_text (messages (chat p)) @ [am_content am]"
proof -
  obtain m where "messages (step (AiMessage h (Some d)) (chat p)) = messages (chat p) @ [m]"
    and "m_text m = am_content am"
    using messages_step_AiMessage [OF assms(3), of h "chat p"] by blast
  with assms(1,2) show ?thesis
    by (simp add: screenshot_settled_def Let_def)
qed

theorem upload_result_delivered_whatever_the_session_witness:
  "isSharing (share (page_run [RequestShare,
       StartShare host0 ''k3x9q1'' (TokenOk ''tok'') (Fulfilled ()), ClickScreenshot,
       StopShare True] (page_initial 0))) = False \<and>
   map m_text (messages (chat (page_step
       (ScreenshotSettled host0 (UploadOk ''File not found'' ''/uploads/1.png''
         \<lparr> success = True, sr_data = Some (reply ''r1'' ''I see the error''), sr_error = None,
           fallback = None \<rparr>))
       (page_run [RequestShare,
         StartShare host0 ''k3x9q1'' (TokenOk ''tok'') (Fulfilled ()), ClickScreenshot,
         StopShare True] (page_initial 0)))))
     = map m_text (messages (chat (page_run [RequestShare,
         StartShare host0 ''k3x9q1'' (TokenOk ''tok'') (Fulfilled ()), ClickScreenshot,
         StopShare True] (page_initial 0)))) @ [''I see the error'']"
proof -
  define p where "p = page_run [RequestShare,
       StartShare host0 ''k3x9q1'' (TokenOk ''tok'') (Fulfilled ()), ClickScreenshot,
       StopShare True] (page_initial 0)"
  define resp where "resp = \<lparr> success = True, sr_data = Some (reply ''r1'' ''I see the error''),
       sr_error = None, fallback = None \<rparr>"
  define am where "am = \<lparr> am_id = StrId ''r1'', am_role = ''assistant'',
       am_content = ''I see the error'', am_timestamp = Some 5, am_metadata = None \<rparr>"
  have st: "isSharing (share p) = False" "0 < uploads (share p)"
    by (simp_all add: p_def page_initial_def share_initial_def startScreenShare_def
        stopScreenShare_def screenshot_click_def Let_def)
  have pl: "screenshot_payload host0 (screenshot_message host0 ''File not found'' ''/uploads/1.png'') resp
      = Some (reply ''r1'' ''I see the error'')"
    by (simp add: screenshot_payload_def resp_def)
  have cm: "cd_message (reply ''r1'' ''I see the error'') = Some am"
    by (simp add: reply_def am_def)
  have "map m_text (messages (chat (page_step
          (ScreenshotSettled host0 (UploadOk ''File not found'' ''/uploads/1.png'' resp)) p)))
        = map m_text (messages (chat p)) @ [am_content am]"
    using upload_result_delivered_whatever_the_session [OF st(2) pl cm] by blast
  then show ?thesis
    using st(1) by (simp add: p_def resp_def am_def)
qed

text \<open>
  The claim fails on this run: sharing is stopped while an upload is pending (one message
  in the window, the greeting), the upload then succeeds, and the window holds a second
  message, the answer \<open>r1\<close>.
\<close>

theorem upload_after_stop_appends_message:
  "isSharing (share (page_run [RequestShare,
       StartShare host0 ''k3x9q1'' (TokenOk ''tok'') (Fulfilled ()), ClickScreenshot,
       StopShare True] (page_initial 0))) = False \<and>
   uploads (share (page_run [RequestShare,
       StartShare host0 ''k3x9q1'' (TokenOk ''tok'') (Fulfilled ()), ClickScreenshot,
       StopShare True] (page_initial 0))) = 1 \<and>
   map m_id (messages (chat (page_run [RequestShare,
       StartShare host0 ''k3x9q1'' (TokenOk ''tok'') (Fulfilled ()), ClickScreenshot,
       StopShare True] (page_initial 0)))) = [NumId 1] \<and>
   map m_id (messages (chat (page_run [RequestShare,
       StartShare host0 ''k3x9q1'' (TokenOk ''tok'') (Fulfilled ()), ClickScreenshot,
       StopShare True,
       ScreenshotSettled host0 (UploadOk ''File not found'' ''/uploads/1.png''
         \<lparr> success = True, sr_data = Some (reply ''r1'' ''I see the error''), sr_error = None,
           fallback = None \<rparr>)] (page_initial 0)))) = [NumId 1, StrId ''r1'']"
  by (simp add: page_initial_def share_initial_def startScreenShare_def generateChannelName_def
      stopScreenShare_def screenshot_click_def screenshot_settled_def screenshot_payload_def
      eval_defs)

text \<open>
  C4. After autoplay is switched off, the result of a synthesis that was under way is
  ignored: it neither resumes playback nor marks a later message played. The continuation
  does test \<open>isAutoplayActive\<close>, but it tests the constant of the render that started the
  chain, which is true. With autoplay off, the end of \<open>a\<close> requests \<open>b\<close>, and the end of
  \<open>b\<close> marks \<open>b\<close> played.
\<close>

theorem disabled_autoplay_keeps_playing:
  "isAutoplayActive (run [AiMessage host0 (Some (reply ''a'' ''one'')),
                          AiMessage host0 (Some (reply ''b'' ''two'')),
                          ToggleAutoplay True, ToggleAutoplay False] (mounted 0)) = False \<and>
   map m_id (tts_requests (run [AiMessage host0 (Some (reply ''a'' ''one'')),
                          AiMessage host0 (Some (reply ''b'' ''two'')),
                          ToggleAutoplay True, ToggleAutoplay False] (mounted 0))) = [StrId ''a''] \<and>
   map m_id (tts_requests (run [AiMessage host0 (Some (reply ''a'' ''one'')),
                          AiMessage host0 (Some (reply ''b'' ''two'')),
                          ToggleAutoplay True, ToggleAutoplay False,
                          TtsSettled 0 AudioEnded] (mounted 0))) = [StrId ''a'', StrId ''b''] \<and>
   playedMessageIds (run [AiMessage host0 (Some (reply ''a'' ''one'')),
                          AiMessage host0 (Some (reply ''b'' ''two'')),
                          ToggleAutoplay True, ToggleAutoplay False,
                          TtsSettled 0 AudioEnded, TtsSettled 0 AudioEnded] (mounted 0))
     = [NumId 1, StrId ''a'', StrId ''b''] \<and>
   isAutoplayActive (run [AiMessage host0 (Some (reply ''a'' ''one'')),
                          AiMessage host0 (Some (reply ''b'' ''two'')),
                          ToggleAutoplay True, ToggleAutoplay False,
                          TtsSettled 0 AudioEnded, TtsSettled 0 AudioEnded] (mounted 0)) = False"
  by (simp add: eval_defs)

text \<open>
  C5. The played set only grows, an id in it is never selected again, and so, for any
  sequence of toggles, arrivals and synthesis completions, each message is narrated at
  most once. The first two hold (\<open>played_set_gates_selection\<close>), and no id is requested
  twice as long as autoplay is not switched off and every synthesis ends in an audio
  callback (\<open>at_most_once_without_defect\<close>). Switching autoplay off during a playback
  breaks it: \<open>toggleAutoplay(false)\<close> clears \<open>isPlayingAudio\<close> and stops nothing, the id of
  \<open>a\<close> is not played yet, so switching on again requests \<open>a\<close> a second time, and both
  requests run to their end.
\<close>

theorem message_requested_twice:
  "map m_id (tts_requests (run [AiMessage host0 (Some (reply ''a'' ''one'')),
       ToggleAutoplay True, ToggleAutoplay False, ToggleAutoplay True] (mounted 0)))
     = [StrId ''a'', StrId ''a''] \<and>
   length (pending (run [AiMessage host0 (Some (reply ''a'' ''one'')),
       ToggleAutoplay True, ToggleAutoplay False, ToggleAutoplay True] (mounted 0))) = 2 \<and>
   pending (run [AiMessage host0 (Some (reply ''a'' ''one'')),
       ToggleAutoplay True, ToggleAutoplay False, ToggleAutoplay True,
       TtsSettled 0 AudioEnded, TtsSettled 0 AudioEnded] (mounted 0)) = []"
  by (simp add: eval_defs)

text \<open>
  C6. With \<open>M1\<close> (assistant), \<open>M2\<close> (user), \<open>M3\<close> (assistant) in the list and none played,
  switching autoplay on plays \<open>M1\<close>, then \<open>M3\<close>, and skips \<open>M2\<close>. Here \<open>a\<close>, the user's
  transcript and \<open>b\<close> arrive in that order. When the synthesis of \<open>a\<close> fails, twice, the
  requests are \<open>a\<close>, \<open>a\<close>, \<open>a\<close>: nothing is marked played and \<open>b\<close> is never reached. When
  both playbacks end in the audio's \<open>ended\<close> callback the requests are \<open>a\<close>, then \<open>b\<close>.
\<close>

theorem fifo_blocked_by_failed_synthesis:
  "map m_sender (messages (run [AiMessage host0 (Some (reply ''a'' ''one'')),
       Transcript host0 ''please help me'',
       AiMessage host0 (Some (reply ''b'' ''two''))] (mounted 0))) = [AI, AI, User, AI] \<and>
   map m_id (tts_requests (run [AiMessage host0 (Some (reply ''a'' ''one'')),
       Transcript host0 ''please help me'',
       AiMessage host0 (Some (reply ''b'' ''two'')),
       ToggleAutoplay True, TtsSettled 0 NonSuccess, TtsSettled 0 NetworkError] (mounted 0)))
     = [StrId ''a'', StrId ''a'', StrId ''a''] \<and>
   playedMessageIds (run [AiMessage host0 (Some (reply ''a'' ''one'')),
       Transcript host0 ''please help me'',
       AiMessage host0 (Some (reply ''b'' ''two'')),
       ToggleAutoplay True, TtsSettled 0 NonSuccess, TtsSettled 0 NetworkError] (mounted 0))
     = [NumId 1] \<and>
   map m_id (tts_requests (run [AiMessage host0 (Some (reply ''a'' ''one'')),
       Transcript host0 ''please help me'',
       AiMessage host0 (Some (reply ''b'' ''two'')),
       ToggleAutoplay True, TtsSettled 0 AudioEnded, TtsSettled 0 AudioEnded] (mounted 0)))
     = [StrId ''a'', StrId ''b'']"
  by (simp add: eval_defs onTranscript_def trim_def is_white_space_def user_message_def)

text \<open>
  C7, as the code has it. Appending never fails and never looks at the ids the window
  holds: every event but the loading of a conversation leaves the list as it is or puts
  one message at its end. A gateway message (from an
  \<open>ai-message\<close> event or a successful answer to \<open>sendMessage\<close>) is stored under the id it
  carries, or under the generated id \<open>ai-<Date.now()>\<close> when it carries none, an empty
  one or 0; a fallback message under the id it carries; the error message under
  \<open>error-<Date.now()>\<close>; a user message, typed or spoken, under \<open>user-<Date.now()>\<close>. So
  an append under an id that is there already leaves one more copy of that id.
\<close>

theorem append_never_rejects:
  assumes "cd_message d = Some am"
  shows "((\<exists>c l. e = LoadConversation c l) \<or>
          (\<exists>ms. messages (step e s) = messages s @ ms \<and> length ms \<le> 1)) \<and>
         m_id (ai_message_of h am)
           = (if truthy_id (am_id am) then am_id am else StrId (''ai-'' @ decimal (now h))) \<and>
         map m_id (messages (step (AiMessage h (Some d)) s))
           = map m_id (messages s) @ [m_id (ai_message_of h am)] \<and>
         count_list (map m_id (messages (step (AiMessage h (Some d)) s))) (m_id (ai_message_of h am))
           = Suc (count_list (map m_id (messages s)) (m_id (ai_message_of h am))) \<and>
         (success r \<and> sr_data r = Some d \<longrightarrow>
            map m_id (messages (step (ResponseReceived h cid r) s))
              = map m_id (messages s) @ [m_id (ai_message_of h am)]) \<and>
         (\<not> success r \<and> fallback r = Some d \<longrightarrow>
            map m_id (messages (step (ResponseReceived h cid r) s))
              = map m_id (messages s) @ [am_id am]) \<and>
         map m_id (messages (step (ResponseFailed h) s))
           = map m_id (messages s) @ [StrId (''error-'' @ decimal (now h))] \<and>
         (trim (inputMessage s) \<noteq> [] \<longrightarrow>
            map m_id (messages (step (SendMessage h) s))
              = map m_id (messages s) @ [StrId (''user-'' @ decimal (now h))]) \<and>
         (10 < length (trim t) \<longrightarrow>
            map m_id (messages (step (Transcript h t) s))
              = map m_id (messages s) @ [StrId (''user-'' @ decimal (now h))])"
proof -
  have "10 < length (trim t) \<Longrightarrow> t \<noteq> []"
    using trim_Nil by auto
  with assms step_appends_at_most_one [of e s] show ?thesis
    by (simp add: step_def ai_message_handler_def ai_message_of_def response_received_def
        response_failed_def ChatWindow_sendMessage_def onTranscript_def user_message_def
        Let_def messages_autoplay_effect)
qed

theorem append_never_rejects_witness:
  "map m_id (messages (step (AiMessage host0 (Some (reply ''m1'' ''two'')))
      (step (AiMessage host0 (Some (reply ''m1'' ''one''))) (mounted 0))))
     = [NumId 1, StrId ''m1'', StrId ''m1''] \<and>
   map m_id (messages (step (AiMessage host0 (Some (reply [] ''three''))) (mounted 0)))
     = [NumId 1, StrId ''ai-7''] \<and>
   map m_id (messages (step (Transcript host0 ''please help me'') (mounted 0)))
     = [NumId 1, StrId ''user-7'']"
proof -
  have a: "map m_id (messages (step (AiMessage host0 (Some (reply ''m1'' ''one''))) (mounted 0)))
      = [NumId 1, StrId ''m1'']"
    by (simp add: eval_defs)
  have b: "map m_id (messages (mounted 0)) = [NumId 1]"
    by (simp add: mounted_def greeting_def)
  have c: "cd_message (reply i body)
      = Some \<lparr> am_id = StrId i, am_role = ''assistant'', am_content = body,
                am_timestamp = Some 5, am_metadata = None \<rparr>" for i body
    by (simp add: reply_def)
  have d: "decimal (now host0) = ''7''"
    by (simp add: host0_def decimal.simps digit_char_def char_of_def bit_0)
  have e: "10 < length (trim ''please help me'')"
    by (simp add: trim_def is_white_space_def)
  show ?thesis
    using append_never_rejects [where d = "reply ''m1'' ''two''" and h = host0
        and am = "\<lparr> am_id = StrId ''m1'', am_role = ''assistant'', am_content = ''two'',
                am_timestamp = Some 5, am_metadata = None \<rparr>"
        and s = "step (AiMessage host0 (Some (reply ''m1'' ''one''))) (mounted 0)"
        and t = "''please help me''" and cid = None and e = "ToggleAutoplay True"
        and r = "\<lparr> success = True, sr_data = Some (reply ''m1'' ''two''), sr_error = None,
                fallback = None \<rparr>"]
      append_never_rejects [where d = "reply [] ''three''" and h = host0
        and am = "\<lparr> am_id = StrId [], am_role = ''assistant'', am_content = ''three'',
                am_timestamp = Some 5, am_metadata = None \<rparr>"
        and s = "mounted 0" and t = "''please help me''" and cid = None
        and e = "ToggleAutoplay True"
        and r = "\<lparr> success = True, sr_data = Some (reply [] ''three''), sr_error = None,
                fallback = None \<rparr>"]
      a b c d e
    by simp
qed

text \<open>
  The claim fails on two arrivals with the same id: no error is raised, and the list holds
  the id twice.
\<close>

theorem duplicate_id_stored_twice:
  "count_list (map m_id (messages (run [AiMessage host0 (Some (reply ''m1'' ''one'')),
       AiMessage host0 (Some (reply ''m1'' ''two''))] (mounted 0)))) (StrId ''m1'') = 2"
  by (simp add: eval_defs)

text \<open>
  C8. The greeting has id \<open>1\<close>, and that id is in the played set from the mount on. Over any
  sequence of events after the mount, every message handed to \<open>playAIMessageTTS\<close> is an
  assistant message and is not the greeting (its id is not \<open>1\<close>).
\<close>

theorem greeting_never_autoplayed:
  "m_id (greeting t) = NumId 1 \<and>
   NumId 1 \<in> set (playedMessageIds (run es (mounted t))) \<and>
   (\<forall>m\<in>set (tts_requests (run es (mounted t))). m_sender m = AI \<and> m_id m \<noteq> NumId 1)"
proof -
  have "advances (mounted t) (run es (mounted t))"
    by (rule advances_run)
  moreover have "playedMessageIds (mounted t) = [NumId 1]" "tts_requests (mounted t) = []"
    by (simp_all add: mounted_def add_id_def)
  ultimately show ?thesis
    unfolding advances_def by (auto simp: greeting_def)
qed

theorem greeting_never_autoplayed_witness:
  "list_all (\<lambda>m. m_sender m = AI \<and> m_id m \<noteq> NumId 1)
     (tts_requests (run [ToggleAutoplay True, AiMessage host0 (Some (reply ''a'' ''one'')),
        TtsSettled 0 AudioEnded, ToggleAutoplay False, ToggleAutoplay True] (mounted 0))) \<and>
   map m_id (tts_requests (run [ToggleAutoplay True, AiMessage host0 (Some (reply ''a'' ''one'')),
        TtsSettled 0 AudioEnded, ToggleAutoplay False, ToggleAutoplay True] (mounted 0)))
     = [StrId ''a'']"
proof -
  have "map m_id (tts_requests (run [ToggleAutoplay True, AiMessage host0 (Some (reply ''a'' ''one'')),
        TtsSettled 0 AudioEnded, ToggleAutoplay False, ToggleAutoplay True] (mounted 0)))
     = [StrId ''a'']"
    by (simp add: eval_defs)
  then show ?thesis
    using greeting_never_autoplayed [of 0 "[ToggleAutoplay True,
        AiMessage host0 (Some (reply ''a'' ''one'')), TtsSettled 0 AudioEnded,
        ToggleAutoplay False, ToggleAutoplay True]"]
    by (simp add: list_all_iff)
qed

text \<open>
  C9, as the code has it. A recognised transcript is appended to the messages as a user
  message exactly when its length after \<open>trim()\<close> (leading and trailing white space
  removed) exceeds 10; otherwise the messages stay as they are and the transcript becomes
  the text of the input field.
\<close>

theorem onTranscript_submits_on_trimmed_length:
  "messages (step (Transcript h t) s)
     = (if 10 < length (trim t) then messages s @ [user_message h t] else messages s) \<and>
   inputMessage (step (Transcript h t) s)
     = (if 10 < length (trim t) then inputMessage s else t)"
proof -
  have "10 < length (trim t) \<Longrightarrow> t \<noteq> []"
    using trim_Nil by auto
  then show ?thesis
    by (auto simp: step_def onTranscript_def Let_def messages_autoplay_effect
        inputMessage_autoplay_effect)
qed

theorem onTranscript_submits_on_trimmed_length_witness:
  "messages (step (Transcript host0 ''  please help me  '') (mounted 0))
     = messages (mounted 0) @ [user_message host0 ''  please help me  ''] \<and>
   inputMessage (step (Transcript host0 ''  please help me  '') (mounted 0))
     = inputMessage (mounted 0)"
  using onTranscript_submits_on_trimmed_length [of host0 "''  please help me  ''" "mounted 0"]
  by (simp add: trim_def is_white_space_def)

text \<open>
  The claim counts the transcript's own length. A transcript of eleven characters, five
  letters and six spaces, is longer than 10 and is not submitted.
\<close>

theorem padded_transcript_not_submitted:
  "length ''hello      '' = 11 \<and>
   messages (step (Transcript host0 ''hello      '') (mounted 0)) = messages (mounted 0) \<and>
   inputMessage (step (Transcript host0 ''hello      '') (mounted 0)) = ''hello      ''"
  by (simp add: step_def onTranscript_def trim_def is_white_space_def mounted_def Let_def)

text \<open>
  C10. When the chat gateway call fails, \<open>ChatService.sendMessage\<close> returns an unsuccessful
  result that carries the fallback response; the fallback's \<open>should_request_screen_share\<close>
  is true exactly when the lower-cased user message contains one of \<open>help\<close>, \<open>stuck\<close>,
  \<open>error\<close>, \<open>problem\<close>, \<open>issue\<close>, \<open>confused\<close>, \<open>not working\<close>, and the metadata of its
  message says \<open>fallback\<close> and \<open>offline\<close>.
\<close>

theorem sendMessage_gateway_failure:
  "success (ChatService_sendMessage h (Rejected e) userMessage cid uid) = False \<and>
   fallback (ChatService_sendMessage h (Rejected e) userMessage cid uid)
     = Some (ChatService_getFallbackResponse h userMessage) \<and>
   should_request_screen_share (ChatService_getFallbackResponse h userMessage)
     = (includes_str (toLowerCase userMessage) ''help'' \<or>
        includes_str (toLowerCase userMessage) ''stuck'' \<or>
        includes_str (toLowerCase userMessage) ''error'' \<or>
        includes_str (toLowerCase userMessage) ''problem'' \<or>
        includes_str (toLowerCase userMessage) ''issue'' \<or>
        includes_str (toLowerCase userMessage) ''confused'' \<or>
        includes_str (toLowerCase userMessage) ''not working'') \<and>
   (\<exists>am. cd_message (ChatService_getFallbackResponse h userMessage) = Some am \<and>
      am_metadata am = Some [(''fallback'', MBool True), (''offline'', MBool True)])"
  by (simp add: ChatService_sendMessage_def ChatService_getFallbackResponse_def
      triggerWords_def Let_def)

theorem sendMessage_gateway_failure_witness:
  "should_request_screen_share
     (the (fallback (ChatService_sendMessage host0 (Rejected ''Network Error'')
        ''It is NOT Working'' None None))) = True \<and>
   should_request_screen_share
     (the (fallback (ChatService_sendMessage host0 (Rejected ''Network Error'')
        ''Hello there'' None None))) = False"
  using sendMessage_gateway_failure [of host0 "''Network Error''" "''It is NOT Working''" None None]
    sendMessage_gateway_failure [of host0 "''Network Error''" "''Hello there''" None None]
  by (simp add: includes_str_def toLowerCase_def lower_char_def sublist_code prefix_code
      char_of_def bit_0)

end
